theory Spec2Isabelle
  imports Complex_Main "HOL-Library.AList" "HOL-Library.Sublist"
begin

section \<open>Python values and exceptions\<close>

text \<open>
  The module \<^verbatim>\<open>api.py\<close> handles the values a JSON parser returns: \<^verbatim>\<open>None\<close>, booleans,
  numbers, strings, lists and dictionaries with string keys. A dictionary is an association
  list in insertion order; a dictionary of the program has no key twice. Numbers are kept
  as integers; the module never inspects a number.
\<close>

datatype pyval =
    PNone
  | PBool bool
  | PNum int
  | PStr string
  | PList "pyval list"
  | PDict "(string \<times> pyval) list"

text \<open>
  An f-string is kept as the list of its pieces: the literal text and the interpolated
  values, in order.
\<close>

datatype frag = Lit string | FInt int | FReal real

type_synonym fstring = "frag list"

text \<open>
  The exception classes the module names or can meet, with the base classes of the
  standard library between them and \<^verbatim>\<open>BaseException\<close>. \<open>UserClass n\<close> is any other class
  \<open>n\<close>, declared as a direct subclass of \<^verbatim>\<open>Exception\<close>.
\<close>

datatype exn_class =
    BaseException_c
  | Exception_c
  | OSError_c
  | URLError_c
  | RateLimitedError_c
  | RetryLimitExceeded_c
  | ValueError_c
  | NameError_c
  | TypeError_c
  | ArithmeticError_c
  | OverflowError_c
  | LookupError_c
  | KeyError_c
  | AttributeError_c
  | RuntimeError_c
  | NotImplementedError_c
  | SyntaxError_c
  | UserClass string

datatype exn =
    RateLimitedError fstring int
  | RetryLimitExceeded fstring
  | URLError fstring
  | ValueError fstring
  | NameError string
  | TypeError string
  | KeyError pyval
  | AttributeError string
  | OverflowError string
  | NotImplementedError fstring
  | SyntaxError string
  | Raised exn_class fstring

fun class_of :: "exn \<Rightarrow> exn_class" where
  "class_of (RateLimitedError m c) = RateLimitedError_c"
| "class_of (RetryLimitExceeded m) = RetryLimitExceeded_c"
| "class_of (URLError m) = URLError_c"
| "class_of (ValueError m) = ValueError_c"
| "class_of (NameError n) = NameError_c"
| "class_of (TypeError m) = TypeError_c"
| "class_of (KeyError k) = KeyError_c"
| "class_of (AttributeError n) = AttributeError_c"
| "class_of (OverflowError m) = OverflowError_c"
| "class_of (NotImplementedError m) = NotImplementedError_c"
| "class_of (SyntaxError m) = SyntaxError_c"
| "class_of (Raised c m) = c"

definition exception_mro :: "exn_class list" where
  "exception_mro = [Exception_c, BaseException_c]"

fun mro :: "exn_class \<Rightarrow> exn_class list" where
  "mro BaseException_c = [BaseException_c]"
| "mro Exception_c = exception_mro"
| "mro OSError_c = OSError_c # exception_mro"
| "mro URLError_c = URLError_c # OSError_c # exception_mro"
| "mro RateLimitedError_c = RateLimitedError_c # exception_mro"
| "mro RetryLimitExceeded_c = RetryLimitExceeded_c # exception_mro"
| "mro ValueError_c = ValueError_c # exception_mro"
| "mro NameError_c = NameError_c # exception_mro"
| "mro TypeError_c = TypeError_c # exception_mro"
| "mro ArithmeticError_c = ArithmeticError_c # exception_mro"
| "mro OverflowError_c = OverflowError_c # ArithmeticError_c # exception_mro"
| "mro LookupError_c = LookupError_c # exception_mro"
| "mro KeyError_c = KeyError_c # LookupError_c # exception_mro"
| "mro AttributeError_c = AttributeError_c # exception_mro"
| "mro RuntimeError_c = RuntimeError_c # exception_mro"
| "mro NotImplementedError_c = NotImplementedError_c # RuntimeError_c # exception_mro"
| "mro SyntaxError_c = SyntaxError_c # exception_mro"
| "mro (UserClass n) = UserClass n # exception_mro"

text \<open>
  \<open>isinstance e exc\<close> is the test of \<^verbatim>\<open>except exc\<close>: the exception is an instance of one
  of the classes of the tuple, or of a subclass of one.
\<close>

definition isinstance :: "exn \<Rightarrow> exn_class list \<Rightarrow> bool" where
  "isinstance e exc = list_ex (\<lambda>c. c \<in> set (mro (class_of e))) exc"

section \<open>The retry decorator\<close>

text \<open>
  What a retried call does that can be observed from outside: it invokes the wrapped
  callable, writes a log record, prints, sleeps.
\<close>

datatype event = Invoke | Info exn pyval | Print exn | Sleep real

text \<open>
  The wrapped callable \<^verbatim>\<open>f(*args, **kwargs)\<close> is a function on the state it reads and
  writes, of any type \<open>'s\<close>: it returns the value or the exception raised, and the new
  state. The world of a retried call is that state and the events so far, oldest first.
\<close>

type_synonym 's callable = "'s \<Rightarrow> (exn + pyval) \<times> 's"

record 's world =
  state :: 's
  events :: "event list"

text \<open>
  \<^verbatim>\<open>time.sleep(secs)\<close> refuses a negative length with \<^verbatim>\<open>ValueError\<close>. It keeps the length
  as a signed 64-bit count of nanoseconds, and a length that does not fit, from
  \<open>2 ^ 63\<close> nanoseconds on, is refused at once with \<^verbatim>\<open>OverflowError\<close>; nothing is slept in
  either case. A length is a real number here: the infinite float is among the lengths
  beyond the limit, the rounding of a float at the limit itself is not modelled, and a
  binding of \<^verbatim>\<open>delay\<close> that is no number, or the float that is not a number, is outside
  the model.
\<close>

definition sleep_limit :: real where
  "sleep_limit = 2 ^ 63 / 10 ^ 9"

definition sleep :: "real \<Rightarrow> 's world \<Rightarrow> (exn + unit) \<times> 's world" where
  "sleep secs w =
     (if secs < 0 then (Inl (ValueError [Lit ''sleep length must be non-negative'']), w)
      else if sleep_limit \<le> secs then
        (Inl (OverflowError ''timestamp too large to convert to C PyTime_t''), w)
      else (Inr (), w\<lparr>events := events w @ [Sleep secs]\<rparr>))"

text \<open>
  The inner function \<^verbatim>\<open>call\<close> of lines 61 to 70. The name \<^verbatim>\<open>delay\<close> is bound nowhere in
  \<^verbatim>\<open>retry\<close>, so Python looks it up among the globals of the module when line 69 runs:
  the argument \<open>delay\<close> is that binding, \<open>None\<close> when the name is unbound, and then the
  lookup raises \<^verbatim>\<open>NameError\<close> inside the handler, after the log record and the print.
  The result is the exception that leaves \<^verbatim>\<open>call\<close> or the boolean it returns, with the
  new value of the nonlocal \<^verbatim>\<open>res\<close>.
\<close>

definition call ::
  "exn_class list \<Rightarrow> real option \<Rightarrow> 's callable \<Rightarrow> pyval \<Rightarrow> 's world
     \<Rightarrow> (exn + bool) \<times> pyval \<times> 's world" where
  "call exc delay f res w =
     (case f (state w) of
        (Inr v, s) \<Rightarrow> (Inr True, v, \<lparr>state = s, events = events w @ [Invoke]\<rparr>)
      | (Inl msg, s) \<Rightarrow>
          if isinstance msg exc then
            (let w1 = \<lparr>state = s, events = events w @ [Invoke, Info msg res, Print msg]\<rparr>
             in case delay of
                  None \<Rightarrow> (Inl (NameError ''delay''), res, w1)
                | Some d \<Rightarrow>
                    (case sleep d w1 of
                       (Inl e, w2) \<Rightarrow> (Inl e, res, w2)
                     | (Inr u, w2) \<Rightarrow> (Inr False, res, w2)))
          else (Inl msg, res, \<lparr>state = s, events = events w @ [Invoke]\<rparr>))"

text \<open>
  The module assigns the name \<^verbatim>\<open>delay\<close> nowhere and imports no such name, and \<^verbatim>\<open>retry\<close>
  takes no such parameter: as the module is written the lookup finds nothing.
\<close>

definition module_delay :: "real option" where
  "module_delay = None"

text \<open>
  Line 77: the exception of the \<^verbatim>\<open>else\<close> clause of the \<^verbatim>\<open>for\<close> loop. Its only argument is
  an f-string over \<^verbatim>\<open>tries\<close> and \<^verbatim>\<open>delay\<close>; the second is again the global lookup.
\<close>

definition exceeded :: "int \<Rightarrow> real option \<Rightarrow> exn" where
  "exceeded tries delay =
     (case delay of
        None \<Rightarrow> NameError ''delay''
      | Some d \<Rightarrow>
          RetryLimitExceeded
            [Lit ''Exceeded max of '', FInt tries,
             Lit '' tries. Raise the delay limit of '', FReal d,
             Lit '' or number of tries''])"

text \<open>
  Lines 73 to 79: \<^verbatim>\<open>for _ in range(tries)\<close>, with the number of rounds left as the first
  argument.
\<close>

fun for_range ::
  "nat \<Rightarrow> int \<Rightarrow> exn_class list \<Rightarrow> real option \<Rightarrow> 's callable \<Rightarrow> pyval \<Rightarrow> 's world
     \<Rightarrow> (exn + pyval) \<times> 's world" where
  "for_range 0 tries exc delay f res w = (Inl (exceeded tries delay), w)"
| "for_range (Suc n) tries exc delay f res w =
     (case call exc delay f res w of
        (Inl e, res', w') \<Rightarrow> (Inl e, w')
      | (Inr b, res', w') \<Rightarrow>
          if b then (Inr res', w') else for_range n tries exc delay f res' w')"

text \<open>
  Lines 81 to 84: \<^verbatim>\<open>while not call(): pass\<close>, which may run forever; \<open>None\<close> is the run
  that never returns.
\<close>

partial_function (option) while_not_call ::
  "exn_class list \<Rightarrow> real option \<Rightarrow> 's callable \<Rightarrow> pyval \<Rightarrow> 's world
     \<Rightarrow> ((exn + pyval) \<times> 's world) option" where
  "while_not_call exc delay f res w =
     (case call exc delay f res w of
        (Inl e, res', w') \<Rightarrow> Some (Inl e, w')
      | (Inr b, res', w') \<Rightarrow>
          if b then Some (Inr res', w') else while_not_call exc delay f res' w')"

text \<open>
  The wrapper \<^verbatim>\<open>new_f\<close> of lines 58 to 84, the decorator \<^verbatim>\<open>_f\<close> that returns it, and
  \<^verbatim>\<open>retry\<close> itself, which checks \<^verbatim>\<open>tries\<close> before it returns the decorator.
\<close>

definition new_f ::
  "exn_class list \<Rightarrow> int \<Rightarrow> 's callable \<Rightarrow> real option \<Rightarrow> 's world
     \<Rightarrow> ((exn + pyval) \<times> 's world) option" where
  "new_f exc tries f delay w =
     (if tries > 0 then Some (for_range (nat tries) tries exc delay f PNone w)
      else while_not_call exc delay f PNone w)"

type_synonym 's wrapped = "real option \<Rightarrow> 's world \<Rightarrow> ((exn + pyval) \<times> 's world) option"

definition retry_f :: "exn_class list \<Rightarrow> int \<Rightarrow> 's callable \<Rightarrow> 's wrapped" where
  "retry_f exc tries f = new_f exc tries f"

definition retry :: "exn_class list \<Rightarrow> int \<Rightarrow> exn + ('s callable \<Rightarrow> 's wrapped)" where
  "retry exc tries =
     (if tries < 0 then
        Inl (ValueError [Lit ''Expected positive `tries` values, received: '', FInt tries])
      else Inr (retry_f exc tries))"

text \<open>
  A call of \<^verbatim>\<open>retry\<close> with keyword arguments, as the decorator lines of the class write it.
  The signature is \<^verbatim>\<open>retry(exc, tries=3)\<close>: \<^verbatim>\<open>tries\<close> has the default 3, and a keyword
  \<^verbatim>\<open>delay\<close> is one the function does not take.
\<close>

definition retry_kw ::
  "exn_class list \<Rightarrow> int option \<Rightarrow> real option \<Rightarrow> exn + ('s callable \<Rightarrow> 's wrapped)" where
  "retry_kw exc tries_kw delay_kw =
     (case delay_kw of
        Some d \<Rightarrow> Inl (TypeError ''retry() got an unexpected keyword argument delay'')
      | None \<Rightarrow> retry exc (case tries_kw of None \<Rightarrow> 3 | Some t \<Rightarrow> t))"

section \<open>Dictionaries, lists and strings\<close>

text \<open>
  \<^verbatim>\<open>field in data\<close>: a key test on a dictionary, a membership test on a list, a substring
  test on a string, and a \<^verbatim>\<open>TypeError\<close> on a value that is no container.
\<close>

fun py_in :: "string \<Rightarrow> pyval \<Rightarrow> exn + bool" where
  "py_in field (PDict d) = Inr (map_of d field \<noteq> None)"
| "py_in field (PList xs) = Inr (PStr field \<in> set xs)"
| "py_in field (PStr s) = Inr (sublist field s)"
| "py_in field v = Inl (TypeError ''argument is not iterable'')"

text \<open>
  \<^verbatim>\<open>data.pop(field)\<close> with a string argument: a dictionary gives the key up or raises
  \<^verbatim>\<open>KeyError\<close>, a list wants an integer, and no other value has the method.
\<close>

fun py_pop :: "string \<Rightarrow> pyval \<Rightarrow> exn + pyval" where
  "py_pop field (PDict d) =
     (if map_of d field \<noteq> None then Inr (PDict (AList.delete field d))
      else Inl (KeyError (PStr field)))"
| "py_pop field (PList xs) =
     Inl (TypeError ''str object cannot be interpreted as an integer'')"
| "py_pop field v = Inl (AttributeError ''pop'')"

text \<open>
  The loop that four operations of the class share, each over its own tuple of fields:
  \<^verbatim>\<open>for field in fields: if field in data: data.pop(field)\<close>.
\<close>

fun pop_fields :: "string list \<Rightarrow> pyval \<Rightarrow> exn + pyval" where
  "pop_fields [] data = Inr data"
| "pop_fields (field # rest) data =
     (case py_in field data of
        Inl e \<Rightarrow> Inl e
      | Inr b \<Rightarrow>
          if b then
            (case py_pop field data of
               Inl e \<Rightarrow> Inl e
             | Inr data' \<Rightarrow> pop_fields rest data')
          else pop_fields rest data)"

text \<open>
  \<^verbatim>\<open>data[key]\<close> with a string key.
\<close>

fun py_getitem :: "pyval \<Rightarrow> string \<Rightarrow> exn + pyval" where
  "py_getitem (PDict d) k =
     (case map_of d k of None \<Rightarrow> Inl (KeyError (PStr k)) | Some v \<Rightarrow> Inr v)"
| "py_getitem (PList xs) k = Inl (TypeError ''list indices must be integers or slices, not str'')"
| "py_getitem (PStr s) k = Inl (TypeError ''string indices must be integers, not str'')"
| "py_getitem v k = Inl (TypeError ''object is not subscriptable'')"

section \<open>The client\<close>

text \<open>
  The signer is the class \<^verbatim>\<open>Sender\<close> of the library \<^verbatim>\<open>mohawk\<close> and the transport is
  \<^verbatim>\<open>requests.get\<close>; neither is code of this repository. Both are parameters, acting on
  an outside world of any type \<open>'n\<close> (clock, nonce source, network): the header that a
  signer built from given arguments carries, and the answer to a GET.
\<close>

record sender =
  sd_credentials :: "(string \<times> string) list"
  sd_url :: string
  sd_method :: string
  sd_always_hash_content :: bool
  sd_content_type :: string
  sd_ext :: string
  request_header :: string

record response =
  resp_status_code :: int
  resp_text :: string
  resp_reason :: string
  resp_json :: "pyval option"

record 'n externals =
  hawk_header ::
    "(string \<times> string) list \<Rightarrow> string \<Rightarrow> string \<Rightarrow> bool \<Rightarrow> string \<Rightarrow> string \<Rightarrow> 'n
       \<Rightarrow> string \<times> 'n"
  requests_get ::
    "string \<Rightarrow> (string \<times> string option) list \<Rightarrow> 'n \<Rightarrow> (exn + response) \<times> 'n"

definition Sender ::
  "'n externals \<Rightarrow> (string \<times> string) list \<Rightarrow> string \<Rightarrow> string \<Rightarrow> bool \<Rightarrow> string \<Rightarrow> string
     \<Rightarrow> 'n \<Rightarrow> sender \<times> 'n" where
  "Sender x credentials url method always_hash_content content_type ext n =
     (case hawk_header x credentials url method always_hash_content content_type ext n of
        (h, n') \<Rightarrow>
          (\<lparr>sd_credentials = credentials, sd_url = url, sd_method = method,
            sd_always_hash_content = always_hash_content,
            sd_content_type = content_type, sd_ext = ext, request_header = h\<rparr>, n'))"

record API =
  api_user :: string
  api_key :: string
  api_ext :: string
  api_credentials :: "(string \<times> string) list"
  api_sender :: "sender option"
  api_header :: "string option"

definition API_init :: "string \<Rightarrow> string \<Rightarrow> string \<Rightarrow> API" where
  "API_init user_id key org_id =
     \<lparr>api_user = user_id, api_key = key, api_ext = org_id,
      api_credentials = [(''id'', user_id), (''key'', key), (''algorithm'', ''sha256'')],
      api_sender = None, api_header = None\<rparr>"

definition API_update_sender :: "'n externals \<Rightarrow> string \<Rightarrow> API \<times> 'n \<Rightarrow> API \<times> 'n" where
  "API_update_sender x url s =
     (case s of (self, n) \<Rightarrow>
        (case Sender x (api_credentials self) url ''GET'' False ''application/json''
                (api_ext self) n of
           (sd, n') \<Rightarrow>
             (self\<lparr>api_sender := Some sd, api_header := Some (request_header sd)\<rparr>, n')))"

definition TOO_MANY_REQUESTS :: int where
  "TOO_MANY_REQUESTS = 429"

text \<open>
  The body of \<^verbatim>\<open>_get\<close>, lines 140 to 157, before the decorator. \<open>resp_json\<close> is what
  \<^verbatim>\<open>response.json()\<close> returns, \<open>None\<close> when it raises \<^verbatim>\<open>JSONDecodeError\<close>.
  Line 154 reads \<^verbatim>\<open>raise RateLimitedError(message=)\<close>: the keyword has no value and
  \<^verbatim>\<open>error_code\<close> is not given at all, so the line is not a Python statement and builds no
  exception. The model ends the path that reaches it with the \<^verbatim>\<open>SyntaxError\<close> the
  interpreter answers to that line; every other path is as written.
\<close>

definition API_get_body :: "'n externals \<Rightarrow> string \<Rightarrow> (API \<times> 'n) callable" where
  "API_get_body x url s =
     (case API_update_sender x url s of (self, n) \<Rightarrow>
        (case requests_get x url
                [(''Authorization'', api_header self),
                 (''Content-Type'', Some ''application/json'')] n of
           (Inl e, n') \<Rightarrow> (Inl e, (self, n'))
         | (Inr r, n') \<Rightarrow>
             (case resp_json r of
                Some v \<Rightarrow> (Inr v, (self, n'))
              | None \<Rightarrow>
                  if resp_status_code r = TOO_MANY_REQUESTS then
                    (Inl (SyntaxError ''invalid syntax''), (self, n'))
                  else
                    (Inl (URLError
                       [Lit ''Did not get valid JSON in response: '',
                        Lit (if resp_text r \<noteq> [] then resp_text r else resp_reason r),
                        Lit '' ~ '', FInt (resp_status_code r)]), (self, n')))))"

text \<open>
  \<^verbatim>\<open>_get\<close> as the class holds it, under \<^verbatim>\<open>@retry((URLError, RateLimitedError), tries=3)\<close>.
\<close>

definition API_get :: "'n externals \<Rightarrow> string \<Rightarrow> (API \<times> 'n) wrapped" where
  "API_get x url = retry_f [URLError_c, RateLimitedError_c] 3 (API_get_body x url)"

definition get_rulesets :: "'n externals \<Rightarrow> (API \<times> 'n) wrapped" where
  "get_rulesets x delay w = API_get x ''https://api.threatstack.com/v2/rulesets'' delay w"

definition get_ruleset :: "'n externals \<Rightarrow> string \<Rightarrow> (API \<times> 'n) wrapped" where
  "get_ruleset x ruleset_id delay w =
     (case API_get x (''https://api.threatstack.com/v2/rulesets/'' @ ruleset_id) delay w of
        None \<Rightarrow> None
      | Some (Inl e, w') \<Rightarrow> Some (Inl e, w')
      | Some (Inr data, w') \<Rightarrow> Some (pop_fields [''updatedAt'', ''createdAt''] data, w'))"

text \<open>
  The loop of lines 206 to 211 over \<^verbatim>\<open>enumerate(data['rules'])\<close>. Over a list it visits
  the elements, and \<^verbatim>\<open>data['rules'][i]\<close> is the element itself. Over a dictionary it
  visits the keys, and \<^verbatim>\<open>data['rules'][0]\<close> looks the integer up as a key, which no
  dictionary with string keys has. Over a string it visits the characters, which are
  strings that cannot change.
\<close>

fun filter_rules :: "pyval list \<Rightarrow> exn + pyval list" where
  "filter_rules [] = Inr []"
| "filter_rules (rule # rules) =
     (case pop_fields [''rulesetId'', ''updatedAt'', ''createdAt''] rule of
        Inl e \<Rightarrow> Inl e
      | Inr rule' \<Rightarrow>
          (case filter_rules rules of
             Inl e \<Rightarrow> Inl e
           | Inr rules' \<Rightarrow> Inr (rule' # rules')))"

fun filter_rules_of :: "(string \<times> pyval) list \<Rightarrow> pyval \<Rightarrow> exn + pyval" where
  "filter_rules_of d (PList rules) =
     (case filter_rules rules of
        Inl e \<Rightarrow> Inl e
      | Inr rules' \<Rightarrow> Inr (PDict (AList.update ''rules'' (PList rules') d)))"
| "filter_rules_of d (PDict rules) =
     (if rules = [] then Inr (PDict d) else Inl (KeyError (PNum 0)))"
| "filter_rules_of d (PStr s) =
     (case filter_rules (map (\<lambda>c. PStr [c]) s) of
        Inl e \<Rightarrow> Inl e
      | Inr rules' \<Rightarrow> Inr (PDict d))"
| "filter_rules_of d v = Inl (TypeError ''object is not iterable'')"

definition get_ruleset_rules :: "'n externals \<Rightarrow> string \<Rightarrow> (API \<times> 'n) wrapped" where
  "get_ruleset_rules x ruleset_id delay w =
     (case API_get x (''https://api.threatstack.com/v2/rulesets/'' @ ruleset_id @ ''/rules'')
             delay w of
        None \<Rightarrow> None
      | Some (Inl e, w') \<Rightarrow> Some (Inl e, w')
      | Some (Inr data, w') \<Rightarrow>
          (case py_getitem data ''rules'' of
             Inl e \<Rightarrow> Some (Inl e, w')
           | Inr rules \<Rightarrow>
               (case data of
                  PDict d \<Rightarrow> Some (filter_rules_of d rules, w')
                | _ \<Rightarrow> Some (Inl (TypeError ''object is not subscriptable''), w'))))"

definition get_rule :: "'n externals \<Rightarrow> string \<Rightarrow> string \<Rightarrow> (API \<times> 'n) wrapped" where
  "get_rule x ruleset_id rule_id delay w =
     (case API_get x (''https://api.threatstack.com/v2/rulesets/'' @ ruleset_id @ ''/rules/''
                        @ rule_id) delay w of
        None \<Rightarrow> None
      | Some (Inl e, w') \<Rightarrow> Some (Inl e, w')
      | Some (Inr data, w') \<Rightarrow>
          Some (pop_fields [''rulesetId'', ''updatedAt'', ''createdAt''] data, w'))"

definition get_rule_tags :: "'n externals \<Rightarrow> string \<Rightarrow> (API \<times> 'n) wrapped" where
  "get_rule_tags x rule_id delay w =
     (case API_get x (''https://api.threatstack.com/v2/rules/'' @ rule_id @ ''/tags'') delay w of
        None \<Rightarrow> None
      | Some (Inl e, w') \<Rightarrow> Some (Inl e, w')
      | Some (Inr data, w') \<Rightarrow> Some (pop_fields [''errors''] data, w'))"









section \<open>Vocabulary of the properties\<close>

text \<open>
  \<open>run_times k f s\<close> is the state after \<open>k\<close> invocations of \<open>f\<close> from \<open>s\<close>.
  \<open>fails_first k exc f s\<close> says that each of the first \<open>k\<close> invocations from \<open>s\<close> raises an
  exception that \<^verbatim>\<open>except exc\<close> catches. \<open>failure_events k d f s\<close> is what \<open>k\<close> caught
  failures leave behind when each is followed by a sleep of \<open>d\<close>. \<open>sleepable d\<close> says
  that \<^verbatim>\<open>time.sleep\<close> accepts the length \<open>d\<close>.
\<close>

fun run_times :: "nat \<Rightarrow> 's callable \<Rightarrow> 's \<Rightarrow> 's" where
  "run_times 0 f s = s"
| "run_times (Suc k) f s = run_times k f (snd (f s))"

fun fails_first :: "nat \<Rightarrow> exn_class list \<Rightarrow> 's callable \<Rightarrow> 's \<Rightarrow> bool" where
  "fails_first 0 exc f s = True"
| "fails_first (Suc k) exc f s =
     (case f s of
        (Inl msg, s') \<Rightarrow> isinstance msg exc \<and> fails_first k exc f s'
      | (Inr v, s') \<Rightarrow> False)"

fun failure_events :: "nat \<Rightarrow> real \<Rightarrow> 's callable \<Rightarrow> 's \<Rightarrow> event list" where
  "failure_events 0 d f s = []"
| "failure_events (Suc k) d f s =
     (case f s of
        (Inl msg, s') \<Rightarrow>
          [Invoke, Info msg PNone, Print msg, Sleep d] @ failure_events k d f s'
      | (Inr v, s') \<Rightarrow> [])"

definition sleepable :: "real \<Rightarrow> bool" where
  "sleepable d = (0 \<le> d \<and> d < sleep_limit)"

definition invocations :: "'s world \<Rightarrow> nat" where
  "invocations w = count_list (events w) Invoke"

fun is_sleep :: "event \<Rightarrow> bool" where
  "is_sleep (Sleep d) = True"
| "is_sleep e = False"

definition sleeps :: "'s world \<Rightarrow> nat" where
  "sleeps w = length (filter is_sleep (events w))"

text \<open>
  Callables and externals for the concrete cases: \<open>scripted outs\<close> answers its \<open>n\<close>-th
  invocation with the \<open>n\<close>-th entry of \<open>outs\<close> and counts its invocations in the state;
  \<open>answering r\<close> is an outside world in which every GET is answered by \<open>r\<close> and the
  header of a signer shows the moment it was built.
\<close>

definition scripted :: "(exn + pyval) list \<Rightarrow> nat callable" where
  "scripted outs n = (if n < length outs then outs ! n else Inr PNone, Suc n)"

definition answering :: "response \<Rightarrow> nat externals" where
  "answering r =
     \<lparr>hawk_header = (\<lambda>credentials url method always_hash_content content_type ext n.
        (''Hawk ts='' @ replicate n (CHR ''1''), Suc n)),
      requests_get = (\<lambda>url headers n. (Inr r, Suc n))\<rparr>"

text \<open>
  \<open>without fs d\<close> is the dictionary \<open>d\<close> with the keys of \<open>fs\<close> taken out and every other
  entry left in its place.
\<close>

definition without :: "string list \<Rightarrow> (string \<times> pyval) list \<Rightarrow> (string \<times> pyval) list" where
  "without fs d = filter (\<lambda>(k, v). k \<notin> set fs) d"

text \<open>
  Scripts and replies for the concrete cases below.
\<close>

definition flaky :: "nat callable" where
  "flaky = scripted [Inl (URLError [Lit ''timed out'']),
                     Inl (RateLimitedError [Lit ''slow down''] 429), Inr (PNum 7)]"

definition fatal :: "nat callable" where
  "fatal = scripted [Inl (ValueError [Lit ''bad identifier'']), Inr (PNum 7)]"

definition refused :: "nat callable" where
  "refused = scripted [Inl (URLError [Lit ''timed out'']), Inl (URLError [Lit ''refused''])]"

definition throttled :: "nat callable" where
  "throttled = scripted [Inl (URLError [Lit ''timed out'']),
                         Inl (RateLimitedError [Lit ''slow down''] 429)]"

definition client0 :: "(API \<times> nat) world" where
  "client0 = \<lparr>state = (API_init ''user'' ''key'' ''org'', 2), events = []\<rparr>"

definition too_many :: response where
  "too_many = \<lparr>resp_status_code = 429, resp_text = ''slow down'',
                resp_reason = ''Too Many Requests'', resp_json = None\<rparr>"

definition ruleset_reply :: response where
  "ruleset_reply =
     \<lparr>resp_status_code = 200, resp_text = ''{...}'', resp_reason = ''OK'',
      resp_json = Some (PDict [(''id'', PStr ''r1''), (''updatedAt'', PStr ''2020-01-01''),
                               (''name'', PStr ''base''), (''rules'', PList [PStr ''a''])])\<rparr>"

definition rules_reply :: response where
  "rules_reply =
     \<lparr>resp_status_code = 200, resp_text = ''{...}'', resp_reason = ''OK'',
      resp_json = Some (PDict [(''updatedAt'', PStr ''2020-01-01''),
        (''rules'', PList (map PDict
           [[(''name'', PStr ''a''), (''rulesetId'', PStr ''r1''), (''createdAt'', PStr ''2019'')],
            [(''name'', PStr ''b'')]])),
        (''token'', PNone)])\<rparr>"

definition no_rules_reply :: response where
  "no_rules_reply =
     \<lparr>resp_status_code = 200, resp_text = ''{...}'', resp_reason = ''OK'',
      resp_json = Some (PDict [(''errors'', PList []), (''inclusion'', PList [])])\<rparr>"

section \<open>One round of the retry loop\<close>

lemma call_caught:
  assumes "f (state w) = (Inl msg, s')" and "isinstance msg exc" and "sleepable d"
  shows "call exc (Some d) f res w =
           (Inr False, res,
            \<lparr>state = s', events = events w @ [Invoke, Info msg res, Print msg, Sleep d]\<rparr>)"
  using assms by (simp add: call_def sleep_def sleepable_def)

lemma call_returned:
  assumes "f (state w) = (Inr v, s')"
  shows "call exc delay f res w = (Inr True, v, \<lparr>state = s', events = events w @ [Invoke]\<rparr>)"
  using assms by (simp add: call_def)

lemma call_not_caught:
  assumes "f (state w) = (Inl msg, s')" and "\<not> isinstance msg exc"
  shows "call exc delay f res w = (Inl msg, res, \<lparr>state = s', events = events w @ [Invoke]\<rparr>)"
  using assms by (simp add: call_def)

lemma call_delay_unbound:
  assumes "f (state w) = (Inl msg, s')" and "isinstance msg exc"
  shows "call exc None f res w =
           (Inl (NameError ''delay''), res,
            \<lparr>state = s', events = events w @ [Invoke, Info msg res, Print msg]\<rparr>)"
  using assms by (simp add: call_def)

section \<open>Rounds that fail and are retried\<close>

lemma for_range_failures:
  assumes "fails_first k exc f (state w)" and "sleepable d"
  shows "for_range (k + n) tries exc (Some d) f PNone w =
         for_range n tries exc (Some d) f PNone
           \<lparr>state = run_times k f (state w),
            events = events w @ failure_events k d f (state w)\<rparr>"
  using assms
proof (induction k arbitrary: w)
  case 0
  then show ?case by (cases w) simp
next
  case (Suc k)
  obtain r s' where fs: "f (state w) = (r, s')" by (cases "f (state w)")
  with Suc.prems obtain msg where r: "r = Inl msg" and c: "isinstance msg exc"
    and rest: "fails_first k exc f s'"
    by (cases r) auto
  let ?w1 = "\<lparr>state = s', events = events w @ [Invoke, Info msg PNone, Print msg, Sleep d]\<rparr>"
  have "for_range (Suc k + n) tries exc (Some d) f PNone w
        = for_range (k + n) tries exc (Some d) f PNone ?w1"
    using call_caught [of f w msg s' exc d PNone] fs r c Suc.prems(2) by simp
  also have "\<dots> = for_range n tries exc (Some d) f PNone
           \<lparr>state = run_times k f (state ?w1),
            events = events ?w1 @ failure_events k d f (state ?w1)\<rparr>"
    using Suc.IH [of ?w1] rest Suc.prems(2) by simp
  finally show ?case using fs r by simp
qed

lemma while_failures:
  assumes "fails_first k exc f (state w)" and "sleepable d"
  shows "while_not_call exc (Some d) f PNone w =
         while_not_call exc (Some d) f PNone
           \<lparr>state = run_times k f (state w),
            events = events w @ failure_events k d f (state w)\<rparr>"
  using assms
proof (induction k arbitrary: w)
  case 0
  then show ?case by (cases w) simp
next
  case (Suc k)
  obtain r s' where fs: "f (state w) = (r, s')" by (cases "f (state w)")
  with Suc.prems obtain msg where r: "r = Inl msg" and c: "isinstance msg exc"
    and rest: "fails_first k exc f s'"
    by (cases r) auto
  let ?w1 = "\<lparr>state = s', events = events w @ [Invoke, Info msg PNone, Print msg, Sleep d]\<rparr>"
  have "while_not_call exc (Some d) f PNone w
        = while_not_call exc (Some d) f PNone ?w1"
    using call_caught [of f w msg s' exc d PNone] fs r c Suc.prems(2)
    by (subst while_not_call.simps) simp
  also have "\<dots> = while_not_call exc (Some d) f PNone
           \<lparr>state = run_times k f (state ?w1),
            events = events ?w1 @ failure_events k d f (state ?w1)\<rparr>"
    using Suc.IH [of ?w1] rest Suc.prems(2) by simp
  finally show ?case using fs r by simp
qed

lemma count_failure_events:
  "fails_first k exc f s \<Longrightarrow> count_list (failure_events k d f s) Invoke = k"
  by (induction k arbitrary: s) (auto split: prod.splits sum.splits)

lemma sleeps_failure_events:
  "fails_first k exc f s \<Longrightarrow> length (filter is_sleep (failure_events k d f s)) = k"
  by (induction k arbitrary: s) (auto split: prod.splits sum.splits)

lemma for_range_succeeds:
  assumes "fails_first k exc f (state w)" and "f (run_times k f (state w)) = (Inr v, s')"
    and "sleepable d"
  shows "for_range (Suc k) tries exc (Some d) f PNone w =
           (Inr v, \<lparr>state = s', events = events w @ failure_events k d f (state w) @ [Invoke]\<rparr>)"
proof -
  have "for_range (k + 1) tries exc (Some d) f PNone w =
        for_range 1 tries exc (Some d) f PNone
          \<lparr>state = run_times k f (state w), events = events w @ failure_events k d f (state w)\<rparr>"
    using assms(1,3) by (rule for_range_failures)
  then show ?thesis
    using assms(2) by (simp add: call_returned)
qed

lemma for_range_exhausted:
  assumes "fails_first k exc f (state w)" and "sleepable d"
  shows "for_range k tries exc (Some d) f PNone w =
           (Inl (exceeded tries (Some d)),
            \<lparr>state = run_times k f (state w),
             events = events w @ failure_events k d f (state w)\<rparr>)"
  using for_range_failures [OF assms, of 0 tries] by simp

lemma while_succeeds:
  assumes "fails_first k exc f (state w)" and "f (run_times k f (state w)) = (Inr v, s')"
    and "sleepable d"
  shows "while_not_call exc (Some d) f PNone w =
           Some (Inr v, \<lparr>state = s', events = events w @ failure_events k d f (state w) @ [Invoke]\<rparr>)"
proof -
  let ?wk = "\<lparr>state = run_times k f (state w), events = events w @ failure_events k d f (state w)\<rparr>"
  have "while_not_call exc (Some d) f PNone w = while_not_call exc (Some d) f PNone ?wk"
    using assms(1,3) by (rule while_failures)
  also have "\<dots> = Some (Inr v, \<lparr>state = s', events = events ?wk @ [Invoke]\<rparr>)"
    using assms(2) by (subst while_not_call.simps) (simp add: call_returned)
  finally show ?thesis by simp
qed

lemma run_times_Suc: "run_times (Suc k) f s = snd (f (run_times k f s))"
  by (induction k arbitrary: s) simp_all

lemma retry_first_attempt:
  assumes "f (state w) = (Inr v, s')"
  shows "new_f exc tries f delay w = Some (Inr v, \<lparr>state = s', events = events w @ [Invoke]\<rparr>)"
proof -
  have c: "call exc delay f PNone w = (Inr True, v, \<lparr>state = s', events = events w @ [Invoke]\<rparr>)"
    using assms by (rule call_returned)
  show ?thesis
  proof (cases "0 < tries")
    case True
    then obtain n where n: "nat tries = Suc n" by (cases "nat tries") auto
    show ?thesis using True n c by (simp add: new_f_def)
  next
    case False
    then show ?thesis using c by (simp add: new_f_def while_not_call.simps)
  qed
qed

lemma retry_after_failures:
  assumes "fails_first k exc f (state w)"
    and "f (run_times k f (state w)) = (Inr v, s')"
    and "sleepable d"
  shows "new_f exc (int k + 1) f (Some d) w =
           Some (Inr v, \<lparr>state = s', events = events w @ failure_events k d f (state w) @ [Invoke]\<rparr>)"
    and "new_f exc 0 f (Some d) w =
           Some (Inr v, \<lparr>state = s', events = events w @ failure_events k d f (state w) @ [Invoke]\<rparr>)"
    and "0 < k \<Longrightarrow> new_f exc (int k) f (Some d) w =
           Some (Inl (exceeded (int k) (Some d)),
                 \<lparr>state = run_times k f (state w),
                  events = events w @ failure_events k d f (state w)\<rparr>)"
proof -
  have "nat (int k + 1) = Suc k" by simp
  then show "new_f exc (int k + 1) f (Some d) w =
           Some (Inr v, \<lparr>state = s', events = events w @ failure_events k d f (state w) @ [Invoke]\<rparr>)"
    using for_range_succeeds [OF assms] by (simp add: new_f_def)
  show "new_f exc 0 f (Some d) w =
           Some (Inr v, \<lparr>state = s', events = events w @ failure_events k d f (state w) @ [Invoke]\<rparr>)"
    using while_succeeds [OF assms] by (simp add: new_f_def)
  show "0 < k \<Longrightarrow> new_f exc (int k) f (Some d) w =
           Some (Inl (exceeded (int k) (Some d)),
                 \<lparr>state = run_times k f (state w),
                  events = events w @ failure_events k d f (state w)\<rparr>)"
    using for_range_exhausted [OF assms(1,3)] by (simp add: new_f_def)
qed

text \<open>
  With the name \<^verbatim>\<open>delay\<close> unbound, as the module has it, the first failure that
  \<^verbatim>\<open>except exc\<close> catches ends the call with \<^verbatim>\<open>NameError\<close>, after one invocation and
  without a sleep, whatever \<^verbatim>\<open>tries\<close> is and whatever the operation would do next. A
  delay beyond the limit of \<^verbatim>\<open>time.sleep\<close> ends the call in the same place with
  \<^verbatim>\<open>OverflowError\<close>.
\<close>

lemma retry_delay_unbound:
  assumes "0 \<le> tries" and "f (state w) = (Inl msg, s')" and "isinstance msg exc"
  shows "new_f exc tries f None w =
           Some (Inl (NameError ''delay''),
                 \<lparr>state = s', events = events w @ [Invoke, Info msg PNone, Print msg]\<rparr>)"
proof -
  have c: "call exc None f PNone w =
             (Inl (NameError ''delay''), PNone,
              \<lparr>state = s', events = events w @ [Invoke, Info msg PNone, Print msg]\<rparr>)"
    using assms(2,3) by (rule call_delay_unbound)
  show ?thesis
  proof (cases "0 < tries")
    case True
    then obtain n where n: "nat tries = Suc n" by (cases "nat tries") auto
    show ?thesis using True n c by (simp add: new_f_def)
  next
    case False
    then show ?thesis using c by (simp add: new_f_def while_not_call.simps)
  qed
qed

lemma retry_delay_too_long:
  assumes "0 \<le> tries" and "f (state w) = (Inl msg, s')" and "isinstance msg exc"
    and "sleep_limit \<le> d"
  shows "new_f exc tries f (Some d) w =
           Some (Inl (OverflowError ''timestamp too large to convert to C PyTime_t''),
                 \<lparr>state = s', events = events w @ [Invoke, Info msg PNone, Print msg]\<rparr>)"
proof -
  have "0 < sleep_limit" by (simp add: sleep_limit_def)
  with assms(4) have "\<not> d < 0" by simp
  then have c: "call exc (Some d) f PNone w =
             (Inl (OverflowError ''timestamp too large to convert to C PyTime_t''), PNone,
              \<lparr>state = s', events = events w @ [Invoke, Info msg PNone, Print msg]\<rparr>)"
    using assms(2,3,4) by (simp add: call_def sleep_def)
  show ?thesis
  proof (cases "0 < tries")
    case True
    then obtain n where n: "nat tries = Suc n" by (cases "nat tries") auto
    show ?thesis using True n c by (simp add: new_f_def)
  next
    case False
    then show ?thesis using c by (simp add: new_f_def while_not_call.simps)
  qed
qed

section \<open>The retry policy\<close>

text \<open>
  What the loops do once the name \<^verbatim>\<open>delay\<close> is bound to a length that \<^verbatim>\<open>time.sleep\<close>
  accepts. Let the operation fail with an exception of the retryable classes on its
  first \<open>k\<close> invocations and return \<open>v\<close> on the next. With \<^verbatim>\<open>tries = k + 1\<close> the wrapper
  returns \<open>v\<close> after exactly \<open>k + 1\<close> invocations and \<open>k\<close> sleeps; with \<^verbatim>\<open>tries = k\<close> and \<open>k\<close>
  positive it raises \<^verbatim>\<open>RetryLimitExceeded\<close> after exactly \<open>k\<close> invocations; with
  \<^verbatim>\<open>tries = 0\<close> it returns \<open>v\<close> after exactly \<open>k + 1\<close> invocations. When \<open>k\<close> is zero nothing
  is slept and the binding of \<^verbatim>\<open>delay\<close> does not matter.
\<close>

lemma retry_bounded_when_delay_bound:
  assumes "fails_first k exc f (state w)"
    and "fst (f (run_times k f (state w))) = Inr v"
    and "k = 0 \<or> (\<exists>d. delay = Some d \<and> sleepable d)"
  shows "(\<exists>w'. new_f exc (int k + 1) f delay w = Some (Inr v, w')
            \<and> state w' = run_times (k + 1) f (state w)
            \<and> invocations w' = invocations w + (k + 1)
            \<and> sleeps w' = sleeps w + k)
       \<and> (0 < k \<longrightarrow>
            (\<exists>m w'. new_f exc (int k) f delay w = Some (Inl (RetryLimitExceeded m), w')
               \<and> state w' = run_times k f (state w)
               \<and> invocations w' = invocations w + k
               \<and> sleeps w' = sleeps w + k))
       \<and> (\<exists>w'. new_f exc 0 f delay w = Some (Inr v, w')
            \<and> state w' = run_times (k + 1) f (state w)
            \<and> invocations w' = invocations w + (k + 1)
            \<and> sleeps w' = sleeps w + k)"
proof -
  obtain s' where fk: "f (run_times k f (state w)) = (Inr v, s')"
    using assms(2) by (cases "f (run_times k f (state w))") simp
  have s': "s' = run_times (k + 1) f (state w)"
    using fk by (simp add: run_times_Suc del: run_times.simps(2))
  from assms(3) show ?thesis
  proof
    assume k: "k = 0"
    let ?w1 = "\<lparr>state = s', events = events w @ [Invoke]\<rparr>"
    have f0: "f (state w) = (Inr v, s')" using fk k by simp
    have a: "new_f exc (int k + 1) f delay w = Some (Inr v, ?w1)"
      and c: "new_f exc 0 f delay w = Some (Inr v, ?w1)"
      using f0 by (rule retry_first_attempt)+
    have n: "state ?w1 = run_times (k + 1) f (state w)"
      "invocations ?w1 = invocations w + (k + 1)" "sleeps ?w1 = sleeps w + k"
      using s' k by (simp_all add: invocations_def sleeps_def)
    from a c n k show ?thesis by blast
  next
    assume "\<exists>d. delay = Some d \<and> sleepable d"
    then obtain d where d: "delay = Some d" and d0: "sleepable d" by blast
    let ?evs = "failure_events k d f (state w)"
    let ?w1 = "\<lparr>state = s', events = events w @ ?evs @ [Invoke]\<rparr>"
    let ?w2 = "\<lparr>state = run_times k f (state w), events = events w @ ?evs\<rparr>"
    have inv: "count_list ?evs Invoke = k"
      using assms(1) by (rule count_failure_events)
    have sl: "length (filter is_sleep ?evs) = k"
      using assms(1) by (rule sleeps_failure_events)
    have n1: "state ?w1 = run_times (k + 1) f (state w)"
      "invocations ?w1 = invocations w + (k + 1)" "sleeps ?w1 = sleeps w + k"
      using s' inv sl by (simp_all add: invocations_def sleeps_def)
    have n2: "state ?w2 = run_times k f (state w)"
      "invocations ?w2 = invocations w + k" "sleeps ?w2 = sleeps w + k"
      using inv sl by (simp_all add: invocations_def sleeps_def)
    have a: "new_f exc (int k + 1) f delay w = Some (Inr v, ?w1)"
      and c: "new_f exc 0 f delay w = Some (Inr v, ?w1)"
      unfolding d using assms(1) fk d0 by (rule retry_after_failures)+
    have b: "0 < k \<longrightarrow> new_f exc (int k) f delay w =
               Some (Inl (RetryLimitExceeded
                            [Lit ''Exceeded max of '', FInt (int k),
                             Lit '' tries. Raise the delay limit of '', FReal d,
                             Lit '' or number of tries'']), ?w2)"
      using retry_after_failures(3) [OF assms(1) fk d0] by (simp add: d exceeded_def)
    from a b c n1 n2 show ?thesis by blast
  qed
qed

text \<open>
  With \<^verbatim>\<open>delay\<close> so bound, an operation that fails on all of its \<^verbatim>\<open>tries\<close> invocations ends
  in \<^verbatim>\<open>RetryLimitExceeded\<close> after exactly that many invocations. The only argument of
  the exception is the message over \<^verbatim>\<open>tries\<close> and \<^verbatim>\<open>delay\<close>, the same whatever the
  operation raised: a run whose last failure was a refusal and one whose last failure
  was a rate limit end in equal exceptions.
\<close>

lemma retry_exhausted_when_delay_bound:
  assumes "0 < tries" and "fails_first (nat tries) exc f (state w)" and "sleepable d"
  shows "\<exists>w'. new_f exc tries f (Some d) w =
                 Some (Inl (RetryLimitExceeded
                         [Lit ''Exceeded max of '', FInt tries,
                          Lit '' tries. Raise the delay limit of '', FReal d,
                          Lit '' or number of tries'']), w')
           \<and> state w' = run_times (nat tries) f (state w)
           \<and> invocations w' = invocations w + nat tries
           \<and> sleeps w' = sleeps w + nat tries"
proof -
  let ?k = "nat tries"
  let ?evs = "failure_events ?k d f (state w)"
  let ?w2 = "\<lparr>state = run_times ?k f (state w), events = events w @ ?evs\<rparr>"
  have inv: "count_list ?evs Invoke = ?k"
    using assms(2) by (rule count_failure_events)
  have sl: "length (filter is_sleep ?evs) = ?k"
    using assms(2) by (rule sleeps_failure_events)
  have c2: "invocations ?w2 = invocations w + ?k" "sleeps ?w2 = sleeps w + ?k"
    using inv sl by (simp_all add: invocations_def sleeps_def)
  have "new_f exc tries f (Some d) w = Some (Inl (exceeded tries (Some d)), ?w2)"
    using for_range_exhausted [OF assms(2,3)] assms(1) by (simp add: new_f_def)
  then show ?thesis
    using c2 by (simp add: exceeded_def)
qed

lemma exhaustion_message_ignores_cause:
  "new_f [URLError_c, RateLimitedError_c] 2 refused (Some 1) \<lparr>state = 0, events = []\<rparr>
     = Some (Inl (RetryLimitExceeded
                    [Lit ''Exceeded max of '', FInt 2,
                     Lit '' tries. Raise the delay limit of '', FReal 1,
                     Lit '' or number of tries'']),
             \<lparr>state = 2,
              events = [Invoke, Info (URLError [Lit ''timed out'']) PNone,
                        Print (URLError [Lit ''timed out'']), Sleep 1,
                        Invoke, Info (URLError [Lit ''refused'']) PNone,
                        Print (URLError [Lit ''refused'']), Sleep 1]\<rparr>)
   \<and> new_f [URLError_c, RateLimitedError_c] 2 throttled (Some 1) \<lparr>state = 0, events = []\<rparr>
     = Some (Inl (RetryLimitExceeded
                    [Lit ''Exceeded max of '', FInt 2,
                     Lit '' tries. Raise the delay limit of '', FReal 1,
                     Lit '' or number of tries'']),
             \<lparr>state = 2,
              events = [Invoke, Info (URLError [Lit ''timed out'']) PNone,
                        Print (URLError [Lit ''timed out'']), Sleep 1,
                        Invoke, Info (RateLimitedError [Lit ''slow down''] 429) PNone,
                        Print (RateLimitedError [Lit ''slow down''] 429), Sleep 1]\<rparr>)"
  by (simp add: new_f_def numeral_2_eq_2 call_def sleep_def sleep_limit_def exceeded_def refused_def
      throttled_def scripted_def isinstance_def exception_mro_def)



text \<open>
  C1, in the module as it is written, where \<^verbatim>\<open>delay\<close> is unbound. The operation fails
  with \<^verbatim>\<open>URLError\<close>, then with \<^verbatim>\<open>RateLimitedError\<close>, then returns 7: a retryable failure on
  its first two invocations and a success on the third. With \<^verbatim>\<open>tries = 3\<close> the wrapper
  does not return 7 after three invocations, and with \<^verbatim>\<open>tries = 2\<close> it does not raise
  \<^verbatim>\<open>RetryLimitExceeded\<close> after two: both runs end in \<^verbatim>\<open>NameError\<close> after the first
  invocation, in the handler of the first failure, and nothing is slept.
\<close>

theorem retry_bounded_in_module:
  "fails_first 2 [URLError_c, RateLimitedError_c] flaky 0
   \<and> fst (flaky (run_times 2 flaky 0)) = Inr (PNum 7)
   \<and> new_f [URLError_c, RateLimitedError_c] 3 flaky module_delay \<lparr>state = 0, events = []\<rparr>
       = Some (Inl (NameError ''delay''),
               \<lparr>state = 1,
                events = [Invoke, Info (URLError [Lit ''timed out'']) PNone,
                          Print (URLError [Lit ''timed out''])]\<rparr>)
   \<and> new_f [URLError_c, RateLimitedError_c] 2 flaky module_delay \<lparr>state = 0, events = []\<rparr>
       = Some (Inl (NameError ''delay''),
               \<lparr>state = 1,
                events = [Invoke, Info (URLError [Lit ''timed out'']) PNone,
                          Print (URLError [Lit ''timed out''])]\<rparr>)"
  by (simp add: new_f_def numeral_2_eq_2 numeral_3_eq_3 call_def module_delay_def flaky_def
      scripted_def isinstance_def exception_mro_def)

text \<open>
  C3, in the module as it is written, where \<^verbatim>\<open>delay\<close> is unbound. The operation fails
  with \<^verbatim>\<open>URLError\<close> on both of its two invocations, and \<^verbatim>\<open>tries = 2\<close>. The wrapper raises no
  \<^verbatim>\<open>RetryLimitExceeded\<close>: the run ends in \<^verbatim>\<open>NameError\<close> after the first invocation, and
  the exception that leaves it names neither the failure that was caught nor the number
  of attempts made.
\<close>

theorem retry_exhaustion_in_module:
  "fails_first 2 [URLError_c, RateLimitedError_c] refused 0
   \<and> new_f [URLError_c, RateLimitedError_c] 2 refused module_delay \<lparr>state = 0, events = []\<rparr>
       = Some (Inl (NameError ''delay''),
               \<lparr>state = 1,
                events = [Invoke, Info (URLError [Lit ''timed out'']) PNone,
                          Print (URLError [Lit ''timed out''])]\<rparr>)"
  by (simp add: new_f_def numeral_2_eq_2 call_def module_delay_def refused_def
      scripted_def isinstance_def exception_mro_def)

text \<open>
  C4. Whenever \<^verbatim>\<open>retry(exc, tries)\<close> returns a decorator, an operation that raises an
  exception outside the retryable classes has that exception propagate out of the
  wrapper after exactly one invocation and no sleep, whatever \<^verbatim>\<open>tries\<close> is and whether or
  not \<^verbatim>\<open>delay\<close> is bound.
\<close>

theorem non_retryable_bypasses:
  assumes "retry exc tries = Inr deco"
    and "f (state w) = (Inl e, s')"
    and "\<not> isinstance e exc"
  shows "deco f delay w = Some (Inl e, \<lparr>state = s', events = events w @ [Invoke]\<rparr>)
       \<and> invocations \<lparr>state = s', events = events w @ [Invoke]\<rparr> = invocations w + 1
       \<and> sleeps \<lparr>state = s', events = events w @ [Invoke]\<rparr> = sleeps w"
proof -
  from assms(1) have t: "0 \<le> tries" and d: "deco = retry_f exc tries"
    by (auto simp: retry_def split: if_splits)
  have c: "call exc delay f PNone w = (Inl e, PNone, \<lparr>state = s', events = events w @ [Invoke]\<rparr>)"
    using assms(2,3) by (rule call_not_caught)
  have "new_f exc tries f delay w = Some (Inl e, \<lparr>state = s', events = events w @ [Invoke]\<rparr>)"
  proof (cases "0 < tries")
    case True
    then obtain n where n: "nat tries = Suc n" by (cases "nat tries") auto
    show ?thesis using True n c by (simp add: new_f_def)
  next
    case False
    then show ?thesis using c by (simp add: new_f_def while_not_call.simps)
  qed
  then show ?thesis
    using d by (simp add: retry_f_def invocations_def sleeps_def)
qed

theorem non_retryable_bypasses_witness:
  "(retry [URLError_c, RateLimitedError_c] 3 :: exn + (nat callable \<Rightarrow> nat wrapped))
     = Inr (retry_f [URLError_c, RateLimitedError_c] 3)
   \<and> fatal (state \<lparr>state = 0, events = []\<rparr>) = (Inl (ValueError [Lit ''bad identifier'']), 1)
   \<and> \<not> isinstance (ValueError [Lit ''bad identifier'']) [URLError_c, RateLimitedError_c]
   \<and> retry_f [URLError_c, RateLimitedError_c] 3 fatal None \<lparr>state = 0, events = []\<rparr>
       = Some (Inl (ValueError [Lit ''bad identifier'']), \<lparr>state = 1, events = [Invoke]\<rparr>)
   \<and> invocations \<lparr>state = 1::nat, events = [Invoke]\<rparr> = 1
   \<and> sleeps \<lparr>state = 1::nat, events = [Invoke]\<rparr> = 0"
proof -
  let ?w = "\<lparr>state = 0::nat, events = []\<rparr>"
  let ?exc = "[URLError_c, RateLimitedError_c]"
  have h1: "retry ?exc 3 = Inr (retry_f ?exc 3 :: nat callable \<Rightarrow> nat wrapped)"
    by (simp add: retry_def)
  have h2: "fatal (state ?w) = (Inl (ValueError [Lit ''bad identifier'']), 1)"
    by (simp add: fatal_def scripted_def)
  have h3: "\<not> isinstance (ValueError [Lit ''bad identifier'']) ?exc"
    by (simp add: isinstance_def exception_mro_def)
  have i: "invocations ?w = 0" "sleeps ?w = 0"
    by (simp_all add: invocations_def sleeps_def)
  show ?thesis
    using non_retryable_bypasses [where f = fatal and w = ?w and delay = None, OF h1 h2 h3]
      h1 h2 h3 i
    by simp
qed

text \<open>
  C9. With a negative \<^verbatim>\<open>tries\<close>, \<^verbatim>\<open>retry\<close> raises \<^verbatim>\<open>ValueError\<close> and returns no
  decorator, so no operation is wrapped or invoked; with \<^verbatim>\<open>tries\<close> zero or positive it
  returns the decorator.
\<close>

theorem retry_checks_tries:
  "(tries < 0 \<longrightarrow>
      (retry exc tries :: exn + ('s callable \<Rightarrow> 's wrapped)) =
        Inl (ValueError [Lit ''Expected positive `tries` values, received: '', FInt tries]))
   \<and> (0 \<le> tries \<longrightarrow>
      (retry exc tries :: exn + ('s callable \<Rightarrow> 's wrapped)) = Inr (retry_f exc tries))"
  by (simp add: retry_def)

theorem retry_checks_tries_witness:
  "(-1::int) < 0
   \<and> (retry [URLError_c] (-1) :: exn + (nat callable \<Rightarrow> nat wrapped)) =
       Inl (ValueError [Lit ''Expected positive `tries` values, received: '', FInt (-1)])
   \<and> (0::int) \<le> 0
   \<and> (retry [URLError_c] 0 :: exn + (nat callable \<Rightarrow> nat wrapped)) = Inr (retry_f [URLError_c] 0)
   \<and> (0::int) \<le> 3
   \<and> (retry [URLError_c] 3 :: exn + (nat callable \<Rightarrow> nat wrapped)) = Inr (retry_f [URLError_c] 3)"
  using retry_checks_tries [where 's = nat, of "-1" "[URLError_c]"]
    retry_checks_tries [where 's = nat, of 0 "[URLError_c]"]
    retry_checks_tries [where 's = nat, of 3 "[URLError_c]"]
  by simp

section \<open>Stripping fields\<close>

lemma without_Nil: "without [] d = d"
  by (simp add: without_def)

lemma without_Cons: "without (f # fs) d = without fs (AList.delete f d)"
  by (induction d) (auto simp: without_def AList.delete_eq)

lemma delete_absent: "map_of d f = None \<Longrightarrow> AList.delete f d = d"
  by (induction d) (auto simp: AList.delete_eq split: if_splits)

lemma pop_fields_dict: "pop_fields fs (PDict d) = Inr (PDict (without fs d))"
proof (induction fs arbitrary: d)
  case Nil
  show ?case by (simp add: without_Nil)
next
  case (Cons f fs)
  show ?case
  proof (cases "map_of d f")
    case None
    then show ?thesis using Cons.IH [of d] by (simp add: without_Cons delete_absent)
  next
    case (Some v)
    then show ?thesis using Cons.IH [of "AList.delete f d"] by (simp add: without_Cons)
  qed
qed

lemma keys_without: "fst ` set (without fs d) = fst ` set d - set fs"
  by (auto simp: without_def image_iff)

lemma map_of_without: "k \<notin> set fs \<Longrightarrow> map_of (without fs d) k = map_of d k"
  by (induction d) (auto simp: without_def)

lemma map_of_without_in: "k \<in> set fs \<Longrightarrow> map_of (without fs d) k = None"
  by (induction d) (auto simp: without_def)

lemma without_idem: "without fs (without fs d) = without fs d"
  by (simp add: without_def)

lemma distinct_without: "distinct (map fst d) \<Longrightarrow> distinct (map fst (without fs d))"
  by (simp add: without_def distinct_map_filter)

lemma filter_rules_dicts:
  "filter_rules (map PDict es) =
     Inr (map (\<lambda>e. PDict (without [''rulesetId'', ''updatedAt'', ''createdAt''] e)) es)"
  by (induction es) (simp_all add: pop_fields_dict del: pop_fields.simps)

lemma map_fst_update: "map_of d k \<noteq> None \<Longrightarrow> map fst (AList.update k v d) = map fst d"
  by (induction d) (auto split: if_splits)

section \<open>The GET request\<close>

text \<open>
  The decorator line of \<^verbatim>\<open>_get\<close> gives \<^verbatim>\<open>tries\<close> by keyword and nothing else, so it
  returns the decorator for three tries.
\<close>

lemma get_decorator:
  "(retry_kw [URLError_c, RateLimitedError_c] (Some 3) None
      :: exn + ('s callable \<Rightarrow> 's wrapped))
   = Inr (retry_f [URLError_c, RateLimitedError_c] 3)"
  by (simp add: retry_kw_def retry_def)

text \<open>
  A reply that parses is returned at the first attempt. A reply that does not parse
  raises inside the body: \<^verbatim>\<open>URLError\<close> with the text or the reason and the status, unless
  the status is 429. Under the decorator that \<^verbatim>\<open>URLError\<close> is caught, and with \<^verbatim>\<open>delay\<close>
  unbound the call ends in \<^verbatim>\<open>NameError\<close>.
\<close>

lemma API_get_first_json:
  assumes "API_update_sender x url (state w) = (self, n)"
    and "requests_get x url
           [(''Authorization'', api_header self), (''Content-Type'', Some ''application/json'')] n
         = (Inr r, n')"
    and "resp_json r = Some v"
  shows "API_get x url delay w = Some (Inr v, \<lparr>state = (self, n'), events = events w @ [Invoke]\<rparr>)"
proof -
  have "API_get_body x url (state w) = (Inr v, (self, n'))"
    using assms by (simp add: API_get_body_def)
  then have "call [URLError_c, RateLimitedError_c] delay (API_get_body x url) PNone w
             = (Inr True, v, \<lparr>state = (self, n'), events = events w @ [Invoke]\<rparr>)"
    by (rule call_returned)
  then show ?thesis
    by (simp add: API_get_def retry_f_def new_f_def numeral_3_eq_3)
qed

lemma API_get_body_not_json:
  assumes "API_update_sender x url s = (self, n)"
    and "requests_get x url
           [(''Authorization'', api_header self), (''Content-Type'', Some ''application/json'')] n
         = (Inr r, n')"
    and "resp_json r = None"
  shows "API_get_body x url s =
           (if resp_status_code r = 429 then Inl (SyntaxError ''invalid syntax'')
            else Inl (URLError
                   [Lit ''Did not get valid JSON in response: '',
                    Lit (if resp_text r \<noteq> [] then resp_text r else resp_reason r),
                    Lit '' ~ '', FInt (resp_status_code r)]),
            (self, n'))"
  using assms by (simp add: API_get_body_def TOO_MANY_REQUESTS_def)

lemma API_get_not_json_delay_unbound:
  assumes "API_update_sender x url (state w) = (self, n)"
    and "requests_get x url
           [(''Authorization'', api_header self), (''Content-Type'', Some ''application/json'')] n
         = (Inr r, n')"
    and "resp_json r = None" and "resp_status_code r \<noteq> 429"
  shows "API_get x url None w =
           Some (Inl (NameError ''delay''),
                 \<lparr>state = (self, n'),
                  events = events w @
                    [Invoke,
                     Info (URLError
                       [Lit ''Did not get valid JSON in response: '',
                        Lit (if resp_text r \<noteq> [] then resp_text r else resp_reason r),
                        Lit '' ~ '', FInt (resp_status_code r)]) PNone,
                     Print (URLError
                       [Lit ''Did not get valid JSON in response: '',
                        Lit (if resp_text r \<noteq> [] then resp_text r else resp_reason r),
                        Lit '' ~ '', FInt (resp_status_code r)])]\<rparr>)"
proof -
  let ?e = "URLError
                       [Lit ''Did not get valid JSON in response: '',
                        Lit (if resp_text r \<noteq> [] then resp_text r else resp_reason r),
                        Lit '' ~ '', FInt (resp_status_code r)]"
  have b: "API_get_body x url (state w) = (Inl ?e, (self, n'))"
    using API_get_body_not_json [OF assms(1,2,3)] assms(4) by simp
  have i: "isinstance ?e [URLError_c, RateLimitedError_c]"
    by (simp add: isinstance_def)
  have "(0::int) \<le> 3" by simp
  then show ?thesis
    unfolding API_get_def retry_f_def using b i by (rule retry_delay_unbound)
qed

lemma answering_update_sender:
  "API_update_sender (answering r) url (self, n) =
     (self\<lparr>api_sender := Some \<lparr>sd_credentials = api_credentials self, sd_url = url,
                                sd_method = ''GET'', sd_always_hash_content = False,
                                sd_content_type = ''application/json'', sd_ext = api_ext self,
                                request_header = ''Hawk ts='' @ replicate n (CHR ''1'')\<rparr>,
            api_header := Some (''Hawk ts='' @ replicate n (CHR ''1''))\<rparr>, Suc n)"
  by (simp add: API_update_sender_def Sender_def answering_def)

lemma answering_get:
  assumes "resp_json r = Some v"
  shows "API_get (answering r) url delay \<lparr>state = (self, n), events = evs\<rparr> =
           Some (Inr v, \<lparr>state = (fst (API_update_sender (answering r) url (self, n)), Suc (Suc n)),
                         events = evs @ [Invoke]\<rparr>)"
proof -
  let ?w = "\<lparr>state = (self, n), events = evs\<rparr>"
  let ?self = "fst (API_update_sender (answering r) url (self, n))"
  have u: "API_update_sender (answering r) url (state ?w) = (?self, Suc n)"
    by (simp add: answering_update_sender)
  have g: "requests_get (answering r) url
             [(''Authorization'', api_header ?self), (''Content-Type'', Some ''application/json'')]
             (Suc n) = (Inr r, Suc (Suc n))"
    by (simp add: answering_def)
  show ?thesis
    using API_get_first_json [OF u g assms, of delay] by simp
qed

text \<open>
  C2, at the input where the code departs from it: a reply with status 429 and the body
  \<^verbatim>\<open>slow down\<close>, which is not JSON. The path ends at line 154, which builds no
  \<^verbatim>\<open>RateLimitedError\<close>: no message and no code 429 reach the caller.
\<close>

theorem get_rate_limited_slip:
  "fst (API_get_body (answering too_many) ''https://api.threatstack.com/v2/rulesets''
          (state client0)) = Inl (SyntaxError ''invalid syntax'')"
  by (simp add: API_get_body_def API_update_sender_def Sender_def client0_def answering_def
      too_many_def TOO_MANY_REQUESTS_def)

section \<open>The read operations\<close>

text \<open>
  C5. When \<^verbatim>\<open>_get\<close> returns a dictionary, \<^verbatim>\<open>get_ruleset\<close> returns it without the keys
  \<^verbatim>\<open>updatedAt\<close> and \<^verbatim>\<open>createdAt\<close>: the keys of the result are the other keys, every other
  key keeps its value, a key that is absent is no failure, and the same loop run on
  the result returns the result.
\<close>

theorem get_ruleset_normalization:
  assumes "API_get x (''https://api.threatstack.com/v2/rulesets/'' @ ruleset_id) delay w
           = Some (Inr (PDict d), w')"
  shows "get_ruleset x ruleset_id delay w
           = Some (Inr (PDict (without [''updatedAt'', ''createdAt''] d)), w')
       \<and> fst ` set (without [''updatedAt'', ''createdAt''] d)
           = fst ` set d - {''updatedAt'', ''createdAt''}
       \<and> (\<forall>k. k \<noteq> ''updatedAt'' \<and> k \<noteq> ''createdAt''
              \<longrightarrow> map_of (without [''updatedAt'', ''createdAt''] d) k = map_of d k)
       \<and> pop_fields [''updatedAt'', ''createdAt''] (PDict (without [''updatedAt'', ''createdAt''] d))
           = Inr (PDict (without [''updatedAt'', ''createdAt''] d))"
proof -
  have 1: "get_ruleset x ruleset_id delay w
           = Some (Inr (PDict (without [''updatedAt'', ''createdAt''] d)), w')"
    using assms by (simp add: get_ruleset_def pop_fields_dict del: pop_fields.simps)
  have 2: "fst ` set (without [''updatedAt'', ''createdAt''] d)
           = fst ` set d - {''updatedAt'', ''createdAt''}"
    using keys_without [of "[''updatedAt'', ''createdAt'']" d] by simp
  have 3: "\<forall>k. k \<noteq> ''updatedAt'' \<and> k \<noteq> ''createdAt''
              \<longrightarrow> map_of (without [''updatedAt'', ''createdAt''] d) k = map_of d k"
    using map_of_without [of _ "[''updatedAt'', ''createdAt'']" d] by simp
  have 4: "pop_fields [''updatedAt'', ''createdAt''] (PDict (without [''updatedAt'', ''createdAt''] d))
           = Inr (PDict (without [''updatedAt'', ''createdAt''] d))"
    by (simp only: pop_fields_dict without_idem)
  from 1 2 3 4 show ?thesis by blast
qed

theorem get_ruleset_normalization_witness:
  "API_get (answering ruleset_reply) (''https://api.threatstack.com/v2/rulesets/'' @ ''r1'') None
     client0
   = Some (Inr (PDict [(''id'', PStr ''r1''), (''updatedAt'', PStr ''2020-01-01''),
                       (''name'', PStr ''base''), (''rules'', PList [PStr ''a''])]),
           \<lparr>state = (fst (API_update_sender (answering ruleset_reply)
                             (''https://api.threatstack.com/v2/rulesets/'' @ ''r1'')
                             (API_init ''user'' ''key'' ''org'', 2)), 4),
            events = [Invoke]\<rparr>)
   \<and> get_ruleset (answering ruleset_reply) ''r1'' None client0
   = Some (Inr (PDict [(''id'', PStr ''r1''), (''name'', PStr ''base''),
                       (''rules'', PList [PStr ''a''])]),
           \<lparr>state = (fst (API_update_sender (answering ruleset_reply)
                             (''https://api.threatstack.com/v2/rulesets/'' @ ''r1'')
                             (API_init ''user'' ''key'' ''org'', 2)), 4),
            events = [Invoke]\<rparr>)"
proof -
  let ?url = "''https://api.threatstack.com/v2/rulesets/'' @ ''r1''"
  let ?w' = "\<lparr>state = (fst (API_update_sender (answering ruleset_reply) ?url
                             (API_init ''user'' ''key'' ''org'', 2)), 4::nat),
            events = [Invoke]\<rparr>"
  have j: "resp_json ruleset_reply
           = Some (PDict [(''id'', PStr ''r1''), (''updatedAt'', PStr ''2020-01-01''),
                          (''name'', PStr ''base''), (''rules'', PList [PStr ''a''])])"
    by (simp add: ruleset_reply_def)
  have h: "API_get (answering ruleset_reply) ?url None client0
           = Some (Inr (PDict [(''id'', PStr ''r1''), (''updatedAt'', PStr ''2020-01-01''),
                       (''name'', PStr ''base''), (''rules'', PList [PStr ''a''])]), ?w')"
    unfolding client0_def using answering_get [OF j, of ?url None _ 2 "[]"]
    by (simp add: eval_nat_numeral)
  have w: "without [''updatedAt'', ''createdAt'']
             [(''id'', PStr ''r1''), (''updatedAt'', PStr ''2020-01-01''),
              (''name'', PStr ''base''), (''rules'', PList [PStr ''a''])]
           = [(''id'', PStr ''r1''), (''name'', PStr ''base''), (''rules'', PList [PStr ''a''])]"
    by (simp add: without_def)
  show ?thesis
    using get_ruleset_normalization [OF h] h w by simp
qed

text \<open>
  C6. When \<^verbatim>\<open>_get\<close> returns a dictionary whose key \<^verbatim>\<open>rules\<close> holds a list of
  dictionaries, \<^verbatim>\<open>get_ruleset_rules\<close> returns the dictionary with each entry of that list
  replaced by the entry without the keys \<^verbatim>\<open>rulesetId\<close>, \<^verbatim>\<open>updatedAt\<close> and \<^verbatim>\<open>createdAt\<close>:
  as many entries as before, in their order, every other key of an entry with its
  value; the keys of the parent and the values of its other keys are as they were.
\<close>

theorem get_ruleset_rules_elementwise:
  assumes "API_get x (''https://api.threatstack.com/v2/rulesets/'' @ ruleset_id @ ''/rules'') delay w
           = Some (Inr (PDict d), w')"
    and "map_of d ''rules'' = Some (PList (map PDict es))"
  shows "get_ruleset_rules x ruleset_id delay w
           = Some (Inr (PDict (AList.update ''rules''
                (PList (map (\<lambda>e. PDict (without [''rulesetId'', ''updatedAt'', ''createdAt''] e)) es))
                d)), w')
       \<and> (\<forall>e. fst ` set (without [''rulesetId'', ''updatedAt'', ''createdAt''] e)
                 = fst ` set e - {''rulesetId'', ''updatedAt'', ''createdAt''}
              \<and> (\<forall>k. k \<noteq> ''rulesetId'' \<and> k \<noteq> ''updatedAt'' \<and> k \<noteq> ''createdAt''
                     \<longrightarrow> map_of (without [''rulesetId'', ''updatedAt'', ''createdAt''] e) k
                          = map_of e k))
       \<and> map fst (AList.update ''rules''
                (PList (map (\<lambda>e. PDict (without [''rulesetId'', ''updatedAt'', ''createdAt''] e)) es))
                d) = map fst d
       \<and> (\<forall>k. k \<noteq> ''rules'' \<longrightarrow>
              map_of (AList.update ''rules''
                (PList (map (\<lambda>e. PDict (without [''rulesetId'', ''updatedAt'', ''createdAt''] e)) es))
                d) k = map_of d k)"
proof -
  let ?fs = "[''rulesetId'', ''updatedAt'', ''createdAt'']"
  let ?d' = "AList.update ''rules'' (PList (map (\<lambda>e. PDict (without ?fs e)) es)) d"
  have 1: "get_ruleset_rules x ruleset_id delay w = Some (Inr (PDict ?d'), w')"
    using assms by (simp add: get_ruleset_rules_def filter_rules_dicts)
  have 2: "\<forall>e. fst ` set (without ?fs e) = fst ` set e - {''rulesetId'', ''updatedAt'', ''createdAt''}
              \<and> (\<forall>k. k \<noteq> ''rulesetId'' \<and> k \<noteq> ''updatedAt'' \<and> k \<noteq> ''createdAt''
                     \<longrightarrow> map_of (without ?fs e) k = map_of e k)"
    using keys_without [of ?fs] map_of_without [of _ ?fs] by simp
  have 3: "map fst ?d' = map fst d"
    using assms(2) by (intro map_fst_update) simp
  have 4: "\<forall>k. k \<noteq> ''rules'' \<longrightarrow> map_of ?d' k = map_of d k"
    by (simp add: update_conv')
  from 1 2 3 4 show ?thesis by blast
qed

theorem get_ruleset_rules_elementwise_witness:
  "API_get (answering rules_reply) (''https://api.threatstack.com/v2/rulesets/'' @ ''r1'' @ ''/rules'')
     None client0
   = Some (Inr (PDict [(''updatedAt'', PStr ''2020-01-01''),
        (''rules'', PList (map PDict
           [[(''name'', PStr ''a''), (''rulesetId'', PStr ''r1''), (''createdAt'', PStr ''2019'')],
            [(''name'', PStr ''b'')]])),
        (''token'', PNone)]),
           \<lparr>state = (fst (API_update_sender (answering rules_reply)
                             (''https://api.threatstack.com/v2/rulesets/'' @ ''r1'' @ ''/rules'')
                             (API_init ''user'' ''key'' ''org'', 2)), 4),
            events = [Invoke]\<rparr>)
   \<and> map_of [(''updatedAt'', PStr ''2020-01-01''),
        (''rules'', PList (map PDict
           [[(''name'', PStr ''a''), (''rulesetId'', PStr ''r1''), (''createdAt'', PStr ''2019'')],
            [(''name'', PStr ''b'')]])),
        (''token'', PNone)] ''rules''
     = Some (PList (map PDict
           [[(''name'', PStr ''a''), (''rulesetId'', PStr ''r1''), (''createdAt'', PStr ''2019'')],
            [(''name'', PStr ''b'')]]))
   \<and> get_ruleset_rules (answering rules_reply) ''r1'' None client0
   = Some (Inr (PDict [(''updatedAt'', PStr ''2020-01-01''),
        (''rules'', PList [PDict [(''name'', PStr ''a'')], PDict [(''name'', PStr ''b'')]]),
        (''token'', PNone)]),
           \<lparr>state = (fst (API_update_sender (answering rules_reply)
                             (''https://api.threatstack.com/v2/rulesets/'' @ ''r1'' @ ''/rules'')
                             (API_init ''user'' ''key'' ''org'', 2)), 4),
            events = [Invoke]\<rparr>)"
proof -
  let ?url = "''https://api.threatstack.com/v2/rulesets/'' @ ''r1'' @ ''/rules''"
  let ?es = "[[(''name'', PStr ''a''), (''rulesetId'', PStr ''r1''), (''createdAt'', PStr ''2019'')],
            [(''name'', PStr ''b'')]]"
  let ?d = "[(''updatedAt'', PStr ''2020-01-01''), (''rules'', PList (map PDict ?es)),
             (''token'', PNone)]"
  let ?w' = "\<lparr>state = (fst (API_update_sender (answering rules_reply) ?url
                             (API_init ''user'' ''key'' ''org'', 2)), 4::nat),
            events = [Invoke]\<rparr>"
  have j: "resp_json rules_reply = Some (PDict ?d)"
    by (simp add: rules_reply_def)
  have h1: "API_get (answering rules_reply) ?url None client0 = Some (Inr (PDict ?d), ?w')"
    unfolding client0_def using answering_get [OF j, of ?url None _ 2 "[]"]
    by (simp add: eval_nat_numeral)
  have h2: "map_of ?d ''rules'' = Some (PList (map PDict ?es))"
    by simp
  show ?thesis
    using get_ruleset_rules_elementwise [OF h1 h2] h1 by (simp add: without_def)
qed

text \<open>
  C10. When \<^verbatim>\<open>_get\<close> returns a dictionary that has no key \<^verbatim>\<open>rules\<close>,
  \<^verbatim>\<open>get_ruleset_rules\<close> raises \<^verbatim>\<open>KeyError\<close> for that key and returns no value.
\<close>

theorem get_ruleset_rules_needs_rules:
  assumes "API_get x (''https://api.threatstack.com/v2/rulesets/'' @ ruleset_id @ ''/rules'') delay w
           = Some (Inr (PDict d), w')"
    and "map_of d ''rules'' = None"
  shows "get_ruleset_rules x ruleset_id delay w = Some (Inl (KeyError (PStr ''rules'')), w')"
  using assms by (simp add: get_ruleset_rules_def)


theorem get_ruleset_rules_needs_rules_witness:
  "API_get (answering no_rules_reply) (''https://api.threatstack.com/v2/rulesets/'' @ ''r1'' @ ''/rules'')
     None client0
   = Some (Inr (PDict [(''errors'', PList []), (''inclusion'', PList [])]),
           \<lparr>state = (fst (API_update_sender (answering no_rules_reply)
                             (''https://api.threatstack.com/v2/rulesets/'' @ ''r1'' @ ''/rules'')
                             (API_init ''user'' ''key'' ''org'', 2)), 4),
            events = [Invoke]\<rparr>)
   \<and> map_of [(''errors'', PList []), (''inclusion'', PList [])] ''rules'' = None
   \<and> get_ruleset_rules (answering no_rules_reply) ''r1'' None client0
   = Some (Inl (KeyError (PStr ''rules'')),
           \<lparr>state = (fst (API_update_sender (answering no_rules_reply)
                             (''https://api.threatstack.com/v2/rulesets/'' @ ''r1'' @ ''/rules'')
                             (API_init ''user'' ''key'' ''org'', 2)), 4),
            events = [Invoke]\<rparr>)"
proof -
  let ?url = "''https://api.threatstack.com/v2/rulesets/'' @ ''r1'' @ ''/rules''"
  let ?d = "[(''errors'', PList []), (''inclusion'', PList [])]"
  let ?w' = "\<lparr>state = (fst (API_update_sender (answering no_rules_reply) ?url
                             (API_init ''user'' ''key'' ''org'', 2)), 4::nat),
            events = [Invoke]\<rparr>"
  have j: "resp_json no_rules_reply = Some (PDict ?d)"
    by (simp add: no_rules_reply_def)
  have h1: "API_get (answering no_rules_reply) ?url None client0 = Some (Inr (PDict ?d), ?w')"
    unfolding client0_def using answering_get [OF j, of ?url None _ 2 "[]"]
    by (simp add: eval_nat_numeral)
  have h2: "map_of ?d ''rules'' = None"
    by simp
  show ?thesis
    using get_ruleset_rules_needs_rules [OF h1 h2] h1 by simp
qed

text \<open>
  The other read operations: the listing of rulesets is returned as \<^verbatim>\<open>_get\<close> gives it, a
  rule loses the same three keys as the entries of a rule listing, a tag listing loses
  the key \<^verbatim>\<open>errors\<close>, and a failure of \<^verbatim>\<open>_get\<close> passes through. A reply that is no
  dictionary is stripped as Python does it: a value that is no container, a list or a
  string that holds the field, each fails in its own way.
\<close>

lemma get_rulesets_verbatim:
  "get_rulesets x delay w = API_get x ''https://api.threatstack.com/v2/rulesets'' delay w"
  by (simp add: get_rulesets_def)

lemma get_rule_strips:
  assumes "API_get x (''https://api.threatstack.com/v2/rulesets/'' @ ruleset_id @ ''/rules/''
                        @ rule_id) delay w = Some (Inr (PDict d), w')"
  shows "get_rule x ruleset_id rule_id delay w
           = Some (Inr (PDict (without [''rulesetId'', ''updatedAt'', ''createdAt''] d)), w')"
  using assms by (simp add: get_rule_def pop_fields_dict del: pop_fields.simps)

lemma get_rule_tags_strips:
  assumes "API_get x (''https://api.threatstack.com/v2/rules/'' @ rule_id @ ''/tags'') delay w
           = Some (Inr (PDict d), w')"
  shows "get_rule_tags x rule_id delay w = Some (Inr (PDict (without [''errors''] d)), w')"
  using assms by (simp add: get_rule_tags_def pop_fields_dict del: pop_fields.simps)

lemma read_failure_propagates:
  assumes "API_get x (''https://api.threatstack.com/v2/rulesets/'' @ ruleset_id) delay w
           = Some (Inl e, w')"
  shows "get_ruleset x ruleset_id delay w = Some (Inl e, w')"
  using assms by (simp add: get_ruleset_def)

lemma pop_fields_not_a_dict:
  "pop_fields [''updatedAt'', ''createdAt''] PNone = Inl (TypeError ''argument is not iterable'')"
  "pop_fields [''updatedAt'', ''createdAt''] (PList [PStr ''updatedAt''])
     = Inl (TypeError ''str object cannot be interpreted as an integer'')"
  "pop_fields [''updatedAt'', ''createdAt''] (PStr ''no updatedAt given'')
     = Inl (AttributeError ''pop'')"
  "pop_fields [''updatedAt'', ''createdAt''] (PList [PStr ''a'']) = Inr (PList [PStr ''a''])"
  by (simp_all add: sublist_code)

section \<open>The surfaces that are not implemented\<close>



section \<open>The signer\<close>

text \<open>
  C8, as amended. A call of \<^verbatim>\<open>_update_sender\<close> builds a signer from the credentials of
  the client, the URL, the method GET and the organisation, and stores it and its header
  in the fields \<^verbatim>\<open>_sender\<close> and \<^verbatim>\<open>_header\<close> of the client. The header stored is the one the
  signing library gives for these arguments at this moment; the other fields of the
  client stay as they are; and what the two fields held before the call has no part in
  what they hold after it.
\<close>

theorem update_sender_stores_signer:
  assumes "API_update_sender x url (self, n) = (self', n')"
  shows "api_sender self' =
           Some (fst (Sender x (api_credentials self) url ''GET'' False ''application/json''
                        (api_ext self) n))
       \<and> api_header self' =
           Some (fst (hawk_header x (api_credentials self) url ''GET'' False ''application/json''
                        (api_ext self) n))
       \<and> n' = snd (hawk_header x (api_credentials self) url ''GET'' False ''application/json''
                        (api_ext self) n)
       \<and> api_user self' = api_user self \<and> api_key self' = api_key self
       \<and> api_ext self' = api_ext self \<and> api_credentials self' = api_credentials self
       \<and> API_update_sender x url (self\<lparr>api_sender := sd0, api_header := h0\<rparr>, n) = (self', n')"
  using assms by (auto simp: API_update_sender_def Sender_def split: prod.splits)

theorem update_sender_stores_signer_witness:
  "API_update_sender (answering too_many) ''https://api.threatstack.com/v2/rulesets''
     (API_init ''user'' ''key'' ''org'', 2)
   = ((API_init ''user'' ''key'' ''org'')
        \<lparr>api_sender := Some \<lparr>sd_credentials = [(''id'', ''user''), (''key'', ''key''),
                                                 (''algorithm'', ''sha256'')],
                              sd_url = ''https://api.threatstack.com/v2/rulesets'',
                              sd_method = ''GET'', sd_always_hash_content = False,
                              sd_content_type = ''application/json'', sd_ext = ''org'',
                              request_header = ''Hawk ts=11''\<rparr>,
          api_header := Some ''Hawk ts=11''\<rparr>, 3)
   \<and> API_update_sender (answering too_many) ''https://api.threatstack.com/v2/rulesets''
     ((API_init ''user'' ''key'' ''org'')\<lparr>api_sender := None, api_header := Some ''stale''\<rparr>, 2)
   = ((API_init ''user'' ''key'' ''org'')
        \<lparr>api_sender := Some \<lparr>sd_credentials = [(''id'', ''user''), (''key'', ''key''),
                                                 (''algorithm'', ''sha256'')],
                              sd_url = ''https://api.threatstack.com/v2/rulesets'',
                              sd_method = ''GET'', sd_always_hash_content = False,
                              sd_content_type = ''application/json'', sd_ext = ''org'',
                              request_header = ''Hawk ts=11''\<rparr>,
          api_header := Some ''Hawk ts=11''\<rparr>, 3)"
proof -
  have h: "API_update_sender (answering too_many) ''https://api.threatstack.com/v2/rulesets''
     (API_init ''user'' ''key'' ''org'', 2)
   = ((API_init ''user'' ''key'' ''org'')
        \<lparr>api_sender := Some \<lparr>sd_credentials = [(''id'', ''user''), (''key'', ''key''),
                                                 (''algorithm'', ''sha256'')],
                              sd_url = ''https://api.threatstack.com/v2/rulesets'',
                              sd_method = ''GET'', sd_always_hash_content = False,
                              sd_content_type = ''application/json'', sd_ext = ''org'',
                              request_header = ''Hawk ts=11''\<rparr>,
          api_header := Some ''Hawk ts=11''\<rparr>, 3)"
    by (simp add: answering_update_sender API_init_def eval_nat_numeral)
  show ?thesis
    using update_sender_stores_signer [OF h, where ?sd0.0 = None and ?h0.0 = "Some ''stale''"] h
    by simp
qed

text \<open>
  The claim as written fails: after a signing call the field \<^verbatim>\<open>_header\<close> of the client
  holds the header just produced, and the field \<^verbatim>\<open>_sender\<close> the signer that carries it.
\<close>

theorem update_sender_counterexample:
  "api_header (fst (API_update_sender (answering too_many) ''https://api.threatstack.com/v2/rulesets''
     (API_init ''user'' ''key'' ''org'', 2))) = Some ''Hawk ts=11''
   \<and> map_option request_header
       (api_sender (fst (API_update_sender (answering too_many)
          ''https://api.threatstack.com/v2/rulesets'' (API_init ''user'' ''key'' ''org'', 2))))
     = Some ''Hawk ts=11''"
  by (simp add: answering_update_sender eval_nat_numeral)

end
